theory Spec2Isabelle
  imports Complex_Main "HOL-Library.Multiset"
begin

section \<open>The JavaScript built-ins that score.js calls\<close>

text \<open>
  score.js is a Node.js script. Its own code is four functions (\<open>parseDataFile\<close>,
  \<open>validateScoreAndRecord\<close>, \<open>getHighestRecords\<close>, \<open>main\<close>); everything else it does is
  done by built-ins of the language, whose behaviour is fixed by the ECMAScript standard.
  The built-ins the properties below depend on are written out here, step by step as the
  standard gives them.

  A JavaScript string is modelled as a \<^typ>\<open>string\<close>, one \<^typ>\<open>char\<close> per code unit, so
  the model covers texts whose code units are below 256.
\<close>

subsection \<open>Numbers\<close>

text \<open>
  A JavaScript number is an IEEE 754 double. The numbers that score.js handles come from
  \<open>parseInt\<close> and from subtracting two of them, so they are integers that a double can
  hold, or one of the two infinities; \<open>NaN\<close> is \<open>None\<close> of an option. Zero and negative
  zero are one value here: the program compares, subtracts and prints them alike.
\<close>

datatype number = NegInfinity | Finite int | Infinity

text \<open>The order of \<open><\<close> and \<open><=\<close> on numbers.\<close>

instantiation number :: linorder
begin

fun less_eq_number :: "number \<Rightarrow> number \<Rightarrow> bool" where
  "less_eq_number NegInfinity _ = True"
| "less_eq_number _ Infinity = True"
| "less_eq_number (Finite x) (Finite y) = (x \<le> y)"
| "less_eq_number _ _ = False"

definition less_number :: "number \<Rightarrow> number \<Rightarrow> bool" where
  "less_number a b = (a \<le> b \<and> \<not> b \<le> a)"

instance
proof
  fix x y z :: number
  show "x < y \<longleftrightarrow> x \<le> y \<and> \<not> y \<le> x"
    by (simp add: less_number_def)
  show "x \<le> x"
    by (cases x) simp_all
  show "x \<le> y \<Longrightarrow> y \<le> z \<Longrightarrow> x \<le> z"
    by (cases x; cases y; cases z) simp_all
  show "x \<le> y \<Longrightarrow> y \<le> x \<Longrightarrow> x = y"
    by (cases x; cases y) simp_all
  show "x \<le> y \<or> y \<le> x"
    by (cases x; cases y) auto
qed

end

text \<open>
  The double nearest to an integer (round to nearest, ties to even). A double has 53
  significant bits: a magnitude below \<open>2 ^ 53\<close> is kept; a larger one is halved \<open>e\<close> times
  until it is below \<open>2 ^ 53\<close>, the bits cut off round the 53 that are left up or down,
  and the result is scaled back by \<open>2 ^ e\<close>. A result of \<open>2 ^ 1024\<close> or more is beyond
  the largest double and becomes an infinity.
\<close>

function halvings :: "int \<Rightarrow> nat" where
  "halvings m = (if m < 2 ^ 53 then 0 else Suc (halvings (m div 2)))"
  by pat_completeness auto
termination
  by (relation "measure nat") auto

definition roundMagnitude :: "int \<Rightarrow> int option" where
  "roundMagnitude m =
     (let e = halvings m;
          q = m div 2 ^ e;
          r = m mod 2 ^ e;
          q' = (if 2 ^ e < 2 * r \<or> (2 * r = 2 ^ e \<and> odd q) then q + 1 else q);
          v = q' * 2 ^ e
      in if 2 ^ 1024 \<le> v then None else Some v)"

definition toDouble :: "int \<Rightarrow> number" where
  "toDouble n =
     (case roundMagnitude \<bar>n\<bar> of
        None \<Rightarrow> if n < 0 then NegInfinity else Infinity
      | Some v \<Rightarrow> Finite (if n < 0 then - v else v))"

text \<open>\<open>a - b\<close> on numbers: the exact difference, rounded; \<open>NaN\<close> for the difference of
  two equal infinities.\<close>

fun subtract :: "number \<Rightarrow> number \<Rightarrow> number option" where
  "subtract (Finite a) (Finite b) = Some (toDouble (a - b))"
| "subtract Infinity Infinity = None"
| "subtract NegInfinity NegInfinity = None"
| "subtract Infinity _ = Some Infinity"
| "subtract _ NegInfinity = Some Infinity"
| "subtract NegInfinity _ = Some NegInfinity"
| "subtract _ Infinity = Some NegInfinity"

subsection \<open>Strings\<close>

text \<open>White space and line terminators, as \<open>String.prototype.trim\<close> and \<open>parseInt\<close> strip
  them: TAB, LF, VT, FF, CR, SPACE and NBSP are the ones below 256.\<close>

definition isWhiteSpace :: "char \<Rightarrow> bool" where
  "isWhiteSpace c = (of_char c \<in> set [9, 10, 11, 12, 13, 32, 160 :: nat])"

definition trimStart :: "string \<Rightarrow> string" where
  "trimStart s = dropWhile isWhiteSpace s"

definition trimEnd :: "string \<Rightarrow> string" where
  "trimEnd s = rev (dropWhile isWhiteSpace (rev s))"

definition trim :: "string \<Rightarrow> string" where
  "trim s = trimEnd (trimStart s)"

text \<open>\<open>s.split(c)\<close> for a one-character separator: the segments between the separators,
  so one more segment than there are separators; \<open>''.split(c)\<close> is \<open>['']\<close>.\<close>

fun split :: "string \<Rightarrow> char \<Rightarrow> string list" where
  "split [] c = [[]]"
| "split (x # xs) c =
     (if x = c then [] # split xs c
      else (case split xs c of
              [] \<Rightarrow> [[x]]
            | seg # segs \<Rightarrow> (x # seg) # segs))"

text \<open>\<open>s.indexOf(c)\<close>: the index of the first occurrence, or \<open>-1\<close>.\<close>

fun indexOf :: "string \<Rightarrow> char \<Rightarrow> int" where
  "indexOf [] c = -1"
| "indexOf (x # xs) c =
     (if x = c then 0
      else (let i = indexOf xs c in if i < 0 then -1 else i + 1))"

text \<open>\<open>s.substring(start, end)\<close>: both positions are clamped to \<open>[0, length]\<close> (so a
  negative one becomes \<open>0\<close>), swapped when \<open>start > end\<close>, and the code units from the
  smaller to the larger are returned. An absent \<open>end\<close> (\<open>None\<close>) is the length.\<close>

definition substring :: "string \<Rightarrow> int \<Rightarrow> int option \<Rightarrow> string" where
  "substring s start end =
     (let len = int (length s);
          intStart = start;
          intEnd = (case end of None \<Rightarrow> len | Some e \<Rightarrow> e);
          finalStart = min (max intStart 0) len;
          finalEnd = min (max intEnd 0) len;
          from = min finalStart finalEnd;
          to = max finalStart finalEnd
      in take (nat (to - from)) (drop (nat from) s))"

subsection \<open>parseInt\<close>

text \<open>The value of a character as a digit: \<open>0-9\<close>, then \<open>a-z\<close> or \<open>A-Z\<close> for 10 to 35.\<close>

definition digitValue :: "char \<Rightarrow> nat option" where
  "digitValue c =
     (let n = (of_char c :: nat) in
      if 48 \<le> n \<and> n \<le> 57 then Some (n - 48)
      else if 97 \<le> n \<and> n \<le> 122 then Some (n - 87)
      else if 65 \<le> n \<and> n \<le> 90 then Some (n - 55)
      else None)"

definition isRadixDigit :: "nat \<Rightarrow> char \<Rightarrow> bool" where
  "isRadixDigit R c = (case digitValue c of None \<Rightarrow> False | Some d \<Rightarrow> d < R)"

text \<open>The integer that a string of radix-\<open>R\<close> digits denotes, most significant first.\<close>

definition digitsValue :: "nat \<Rightarrow> string \<Rightarrow> int" where
  "digitsValue R Z = foldl (\<lambda>acc c. acc * int R + int (the (digitValue c))) 0 Z"

text \<open>
  \<open>parseInt(string, radix)\<close>, with radix \<open>0\<close> standing for an absent radix:
  strip leading white space; take an optional sign; settle the radix (absent means 10,
  and only then or with 16 a leading \<open>0x\<close>/\<open>0X\<close> is removed and selects 16); take the
  longest prefix of digits of that radix; \<open>NaN\<close> if it is empty, else its signed value
  as a number, that is, the nearest double. Whatever follows the digits is ignored.
  (Past 20 significant decimal digits the standard lets an engine zero the later digits
  before it rounds; the model rounds the digits as they stand.)
\<close>

definition parseInt :: "string \<Rightarrow> nat \<Rightarrow> number option" where
  "parseInt inputString radix =
     (let S = trimStart inputString;
          sign = (if S \<noteq> [] \<and> hd S = CHR ''-'' then -1 else 1 :: int);
          S = (if S \<noteq> [] \<and> (hd S = CHR ''+'' \<or> hd S = CHR ''-'') then tl S else S);
          stripPrefix = (radix = 0 \<or> radix = 16);
          R = (if radix = 0 then 10 else radix)
      in if radix \<noteq> 0 \<and> (radix < 2 \<or> 36 < radix) then None
         else
           (let hex = (stripPrefix \<and> (take 2 S = ''0x'' \<or> take 2 S = ''0X''));
                S = (if hex then drop 2 S else S);
                R = (if hex then 16 else R);
                Z = takeWhile (isRadixDigit R) S
            in if Z = [] then None else Some (toDouble (sign * digitsValue R Z))))"

subsection \<open>Arrays\<close>

text \<open>
  \<open>array.sort(comparefn)\<close> sorts the array in place and returns that same array: the
  model returns the new contents, which are both the value returned and what the
  receiver holds afterwards. \<open>comparefn(a, b)\<close> is negative when \<open>a\<close> goes first and
  positive when \<open>b\<close> does; \<open>NaN\<close> counts as zero, and elements that compare equal keep
  their order (the sort is stable, as the standard requires since ECMAScript 2019).
\<close>

text \<open>A result of \<open>comparefn\<close> above zero; \<open>NaN\<close> is not.\<close>

definition positive :: "number option \<Rightarrow> bool" where
  "positive v = (case v of None \<Rightarrow> False | Some n \<Rightarrow> Finite 0 < n)"

fun insert_sorted :: "('a \<Rightarrow> 'a \<Rightarrow> number option) \<Rightarrow> 'a \<Rightarrow> 'a list \<Rightarrow> 'a list" where
  "insert_sorted comparefn x [] = [x]"
| "insert_sorted comparefn x (y # ys) =
     (if positive (comparefn x y) then y # insert_sorted comparefn x ys else x # y # ys)"

fun array_sort :: "('a \<Rightarrow> 'a \<Rightarrow> number option) \<Rightarrow> 'a list \<Rightarrow> 'a list" where
  "array_sort comparefn [] = []"
| "array_sort comparefn (x # xs) = insert_sorted comparefn x (array_sort comparefn xs)"

text \<open>\<open>array.slice(start, end)\<close>: a new array. A negative position counts from the end
  (\<open>length + position\<close>, not below \<open>0\<close>); a position beyond the end is the length.\<close>

definition position :: "int \<Rightarrow> number \<Rightarrow> int" where
  "position len relative =
     (case relative of
        NegInfinity \<Rightarrow> 0
      | Finite i \<Rightarrow> if i < 0 then max (len + i) 0 else min i len
      | Infinity \<Rightarrow> len)"

definition slice :: "'a list \<Rightarrow> number \<Rightarrow> number \<Rightarrow> 'a list" where
  "slice xs start end =
     (let len = int (length xs);
          k = position len start;
          final = position len end
      in take (nat (final - k)) (drop (nat k) xs))"

subsection \<open>JSON values\<close>

text \<open>What \<open>JSON.parse\<close> returns. An object is its list of properties, looked up by key.\<close>

datatype json =
    JNull
  | JBool bool
  | JNumber rat
  | JString string
  | JArray "json list"
  | JObject "(string \<times> json) list"

text \<open>\<open>JSON.parse\<close> itself is the platform's: the functions below take it as the
  parameter \<open>parse\<close>, \<open>None\<close> when it throws a \<open>SyntaxError\<close>.\<close>

type_synonym json_parser = "string \<Rightarrow> json option"

definition typeof :: "json \<Rightarrow> string" where
  "typeof v =
     (case v of
        JNull \<Rightarrow> ''object''
      | JBool _ \<Rightarrow> ''boolean''
      | JNumber _ \<Rightarrow> ''number''
      | JString _ \<Rightarrow> ''string''
      | JArray _ \<Rightarrow> ''object''
      | JObject _ \<Rightarrow> ''object'')"

definition isArray :: "json \<Rightarrow> bool" where
  "isArray v = (case v of JArray _ \<Rightarrow> True | _ \<Rightarrow> False)"

text \<open>\<open>key in record\<close> for a record that is a plain object (the only place score.js uses
  \<open>in\<close> comes after the checks that it is one), and \<open>record.key\<close>, \<open>None\<close> for
  \<open>undefined\<close>.\<close>

definition properties :: "json \<Rightarrow> (string \<times> json) list" where
  "properties v = (case v of JObject kvs \<Rightarrow> kvs | _ \<Rightarrow> [])"

definition has_property :: "string \<Rightarrow> json \<Rightarrow> bool" where
  "has_property key v = (key \<in> set (map fst (properties v)))"

definition get_property :: "(string \<times> json) list \<Rightarrow> string \<Rightarrow> json option" where
  "get_property kvs key = map_of kvs key"

section \<open>score.js\<close>

subsection \<open>Data\<close>

text \<open>
  The object \<open>{ score, record }\<close> that \<open>validateScoreAndRecord\<close> returns and
  \<open>parseDataFile\<close> collects. \<open>record\<close> has passed the three checks of
  \<open>validateScoreAndRecord\<close>, so it is a plain object: the field (\<open>record_obj\<close>
  here, \<open>record\<close> being a keyword) holds its properties.
\<close>

record scored_record =
  score :: number
  record_obj :: "(string \<times> json) list"

text \<open>The object \<open>{ score, record: record.record.id }\<close> that \<open>getHighestRecords\<close> builds:
  its \<open>record\<close> field is the value of the \<open>id\<close> property.\<close>

record ranked_entry =
  entry_score :: number
  entry_record :: "json option"

text \<open>
  The ways a run ends in failure, under the names the specification gives them. In
  score.js each is a \<open>console.error\<close> with its own message, followed by
  \<open>process.exit\<close> with a code:
  \<^item> \<open>UsageError\<close>: "Usage: node score.js <data_file> <count>", code 1;
  \<^item> \<open>InvalidCount\<close>: "Invalid count value", code 2;
  \<^item> \<open>FileNotFound\<close>: "File not found", code 1;
  \<^item> \<open>InvalidScore\<close>: "Invalid score: not an integer", code 2;
  \<^item> \<open>InvalidRecordJSON\<close>: "Invalid record: not a valid JSON dictionary", code 2;
  \<^item> \<open>InvalidRecordShape\<close>: "Invalid record: not a JSON dictionary", code 2;
  \<^item> \<open>InvalidRecordMissingId\<close>: "Invalid record: missing "id" field", code 2;
  \<^item> \<open>OtherIOError\<close>: "An error occurred: ...", code 2.
\<close>

datatype error =
    UsageError
  | InvalidCount
  | FileNotFound
  | InvalidScore
  | InvalidRecordJSON
  | InvalidRecordShape
  | InvalidRecordMissingId
  | OtherIOError

text \<open>\<open>process.exit(code)\<close> after the message of an error: the process is gone, nothing
  after the call runs.\<close>

datatype exit = Exit error nat

text \<open>How the promise of \<open>parseDataFile\<close> ends: resolved with the records, rejected with
  the error of \<open>fs.readFile\<close> (its \<open>code\<close>, such as \<open>ENOENT\<close>), or never settled because
  a validation has ended the process.\<close>

datatype parse_result =
    Resolved "scored_record list"
  | Rejected string
  | Exited exit

text \<open>How \<open>main\<close> ends: with the entries printed (as JSON) and exit code 0, or with an
  error message and its exit code.\<close>

datatype outcome =
    Printed "ranked_entry list"
  | Failed exit

text \<open>\<open>fs.readFile(path, 'utf8', callback)\<close>: the text of the file, or the \<open>code\<close> of the
  error. The file system is a parameter of the run.\<close>

type_synonym file_system = "string \<Rightarrow> string + string"

subsection \<open>validateScoreAndRecord\<close>

definition validateScoreAndRecord :: "json_parser \<Rightarrow> string \<Rightarrow> string \<Rightarrow> exit + scored_record" where
  "validateScoreAndRecord parse scoreStr recordStr =
     (case parseInt scoreStr 10 of
        None \<Rightarrow> Inl (Exit InvalidScore 2)
      | Some n \<Rightarrow>
          (case parse recordStr of
             None \<Rightarrow> Inl (Exit InvalidRecordJSON 2)
           | Some record \<Rightarrow>
               if typeof record \<noteq> ''object'' \<or> isArray record \<or> record = JNull
               then Inl (Exit InvalidRecordShape 2)
               else if \<not> has_property ''id'' record
               then Inl (Exit InvalidRecordMissingId 2)
               else Inr \<lparr>score = n, record_obj = properties record\<rparr>))"

subsection \<open>parseDataFile\<close>

text \<open>The lines of the file: split at line feeds, trimmed, the empty ones dropped.\<close>

definition file_lines :: "string \<Rightarrow> string list" where
  "file_lines data = filter (\<lambda>line. line \<noteq> []) (map trim (split data (CHR 0x0A)))"

text \<open>The body of the function mapped over the lines: the two tokens around the first
  colon, trimmed, and their validation.\<close>

definition scoreStr_of :: "string \<Rightarrow> string" where
  "scoreStr_of line = (let colonIndex = indexOf line CHR '':'' in trim (substring line 0 (Some colonIndex)))"

definition recordStr_of :: "string \<Rightarrow> string" where
  "recordStr_of line = (let colonIndex = indexOf line CHR '':'' in trim (substring line (colonIndex + 1) None))"

definition parse_line :: "json_parser \<Rightarrow> string \<Rightarrow> exit + scored_record" where
  "parse_line parse line = validateScoreAndRecord parse (scoreStr_of line) (recordStr_of line)"

text \<open>\<open>lines.map(async line => ...)\<close>: the body has no \<open>await\<close>, so the lines are handled
  one after the other in order, and the first \<open>process.exit\<close> ends the run there.\<close>

fun parse_lines :: "json_parser \<Rightarrow> string list \<Rightarrow> exit + scored_record list" where
  "parse_lines parse [] = Inr []"
| "parse_lines parse (line # lines) =
     (case parse_line parse line of
        Inl e \<Rightarrow> Inl e
      | Inr r \<Rightarrow>
          (case parse_lines parse lines of
             Inl e \<Rightarrow> Inl e
           | Inr rs \<Rightarrow> Inr (r # rs)))"

definition parseDataFile :: "file_system \<Rightarrow> json_parser \<Rightarrow> string \<Rightarrow> parse_result" where
  "parseDataFile readFile parse filePath =
     (case readFile filePath of
        Inl code \<Rightarrow> Rejected code
      | Inr data \<Rightarrow>
          (case parse_lines parse (file_lines data) of
             Inl e \<Rightarrow> Exited e
           | Inr records \<Rightarrow> Resolved records))"

subsection \<open>getHighestRecords\<close>

text \<open>The comparison function \<open>(a, b) => b.score - a.score\<close>.\<close>

definition by_score_desc :: "scored_record \<Rightarrow> scored_record \<Rightarrow> number option" where
  "by_score_desc a b = subtract (score b) (score a)"

definition project :: "scored_record \<Rightarrow> ranked_entry" where
  "project r = \<lparr>entry_score = score r, entry_record = get_property (record_obj r) ''id''\<rparr>"

text \<open>
  \<open>records.sort(...).slice(0, count).map(...)\<close>. \<open>sort\<close> works on the array it is called
  on, so the caller's \<open>records\<close> is the sorted array after the call: the model returns
  it (first component) next to the array the function returns (second component). The parameter \<open>count\<close> is
  \<open>cnt\<close> here.
\<close>

definition getHighestRecords :: "scored_record list \<Rightarrow> number \<Rightarrow> scored_record list \<times> ranked_entry list" where
  "getHighestRecords records cnt =
     (let records' = array_sort by_score_desc records
      in (records', map project (slice records' (Finite 0) cnt)))"

subsection \<open>main\<close>

definition main :: "file_system \<Rightarrow> json_parser \<Rightarrow> string list \<Rightarrow> outcome" where
  "main readFile parse args =
     (if length args \<noteq> 2 then Failed (Exit UsageError 1)
      else
        (let filePath = args ! 0;
             parsed = parseInt (args ! 1) 0
         in case parsed of
              None \<Rightarrow> Failed (Exit InvalidCount 2)
            | Some cnt \<Rightarrow>
                if cnt \<le> Finite 0 then Failed (Exit InvalidCount 2)
                else
                  (case parseDataFile readFile parse filePath of
                     Resolved records \<Rightarrow> Printed (snd (getHighestRecords records cnt))
                   | Exited e \<Rightarrow> Failed e
                   | Rejected code \<Rightarrow>
                       if code = ''ENOENT'' then Failed (Exit FileNotFound 1)
                       else Failed (Exit OtherIOError 2))))"

section \<open>Notions of the specification\<close>

text \<open>Scores in non-increasing order: \<open>a\<close> may stand before \<open>b\<close>.\<close>

definition score_desc :: "scored_record \<Rightarrow> scored_record \<Rightarrow> bool" where
  "score_desc a b = (score b \<le> score a)"

text \<open>A JSON object, as opposed to an array, \<open>null\<close> or a scalar.\<close>

definition is_object :: "json \<Rightarrow> bool" where
  "is_object v = (case v of JObject _ \<Rightarrow> True | _ \<Rightarrow> False)"

text \<open>
  Base-10 leading-prefix integer parsing, in the specification's words: after leading
  white space and an optional sign, the longest run of decimal digits is the number, in
  positional notation; no digit there means no number. What follows the digits does not
  matter.
\<close>

definition is_digit :: "char \<Rightarrow> bool" where
  "is_digit c = (c \<in> set ''0123456789'')"

definition digit_of :: "char \<Rightarrow> nat" where
  "digit_of c = of_char c - 48"

fun decimal_value :: "string \<Rightarrow> nat" where
  "decimal_value [] = 0"
| "decimal_value (d # ds) = digit_of d * 10 ^ length ds + decimal_value ds"

definition leading_digits :: "string \<Rightarrow> nat option" where
  "leading_digits s =
     (let ds = takeWhile is_digit s in if ds = [] then None else Some (decimal_value ds))"

definition leading_integer :: "string \<Rightarrow> int option" where
  "leading_integer token =
     (case dropWhile isWhiteSpace token of
        [] \<Rightarrow> None
      | c # cs \<Rightarrow>
          if c = CHR ''-'' then map_option (\<lambda>n. - int n) (leading_digits cs)
          else if c = CHR ''+'' then map_option int (leading_digits cs)
          else map_option int (leading_digits (c # cs)))"

text \<open>A string that denotes a positive integer: decimal digits and nothing else, with a
  value above zero.\<close>

definition denotes_positive_integer :: "string \<Rightarrow> bool" where
  "denotes_positive_integer s = (s \<noteq> [] \<and> (\<forall>c \<in> set s. is_digit c) \<and> 0 < decimal_value s)"

section \<open>The examples of the specification\<close>

text \<open>What \<open>JSON.parse\<close> returns on the record tokens of the specification's examples
  (Examples 1 to 5). It stands in for the platform's parser on these tokens only.\<close>

definition example_parse :: json_parser where
  \<open>example_parse =
     map_of
       [(''{"id": "a"}'', JObject [(''id'', JString ''a'')]),
        (''{"id": "b"}'', JObject [(''id'', JString ''b'')]),
        (''{"id": "c"}'', JObject [(''id'', JString ''c'')]),
        (''{"id": 1}'', JObject [(''id'', JNumber 1)]),
        (''["not","an","object"]'', JArray [JString ''not'', JString ''an'', JString ''object'']),
        (''{"name": "x"}'', JObject [(''name'', JString ''x'')])]\<close>

text \<open>The input of Example 1 and of Example 2.\<close>

definition example1_text :: string where
  \<open>example1_text =
     ''10: {"id": "a"}'' @ [CHR 0x0A] @ ''5: {"id": "b"}'' @ [CHR 0x0A] @ ''20: {"id": "c"}''\<close>

definition example2_text :: string where
  \<open>example2_text = ''3: {"id": 1}''\<close>

text \<open>A file system with the two inputs, and no other file (Example 6).\<close>

definition example_files :: file_system where
  "example_files path =
     (if path = ''data.txt'' then Inr example1_text
      else if path = ''one.txt'' then Inr example2_text
      else Inl ''ENOENT'')"

definition example1_records :: "scored_record list" where
  "example1_records =
     [\<lparr>score = Finite 10, record_obj = [(''id'', JString ''a'')]\<rparr>,
      \<lparr>score = Finite 5, record_obj = [(''id'', JString ''b'')]\<rparr>,
      \<lparr>score = Finite 20, record_obj = [(''id'', JString ''c'')]\<rparr>]"

definition example2_records :: "scored_record list" where
  "example2_records = [\<lparr>score = Finite 3, record_obj = [(''id'', JNumber 1)]\<rparr>]"

text \<open>A second file system, which holds the input of Example 1 under another name and
  refuses every other path.\<close>

definition mirror_files :: file_system where
  "mirror_files path = (if path = ''copy.txt'' then Inr example1_text else Inl ''EACCES'')"

text \<open>A record with a negative score, as the line \<open>-5: {"id": 1}\<close> yields it.\<close>

definition negative_record :: scored_record where
  "negative_record = \<lparr>score = Finite (- 5), record_obj = [(''id'', JNumber 1)]\<rparr>"

section \<open>The examples, run\<close>

lemma example1_lines:
  \<open>file_lines example1_text = [''10: {"id": "a"}'', ''5: {"id": "b"}'', ''20: {"id": "c"}'']\<close>
  by code_simp

lemma example1_parsed:
  "parseDataFile example_files example_parse ''data.txt'' = Resolved example1_records"
  by code_simp

lemma example1_ranked:
  "snd (getHighestRecords example1_records (Finite 2)) =
     [\<lparr>entry_score = Finite 20, entry_record = Some (JString ''c'')\<rparr>,
      \<lparr>entry_score = Finite 10, entry_record = Some (JString ''a'')\<rparr>]"
  by code_simp

lemma example1_main:
  "main example_files example_parse [''data.txt'', ''2''] = Printed
     [\<lparr>entry_score = Finite 20, entry_record = Some (JString ''c'')\<rparr>,
      \<lparr>entry_score = Finite 10, entry_record = Some (JString ''a'')\<rparr>]"
  by code_simp

lemma example2_read: "example_files ''one.txt'' = Inr example2_text"
  by code_simp

lemma example2_parsed:
  "parseDataFile example_files example_parse ''one.txt'' = Resolved example2_records"
  by code_simp

lemma example2_main:
  "main example_files example_parse [''one.txt'', ''5''] = Printed
     [\<lparr>entry_score = Finite 3, entry_record = Some (JNumber 1)\<rparr>]"
  by code_simp

section \<open>Rounding to a double\<close>

lemma halvings_small: "m < 2 ^ 53 \<Longrightarrow> halvings m = 0"
  by simp

lemma halvings_power: "1 \<le> m \<Longrightarrow> 2 ^ halvings m \<le> m"
proof (induction m rule: halvings.induct)
  case (1 m)
  show ?case
  proof (cases "m < 2 ^ 53")
    case True
    with "1.prems" show ?thesis
      by (simp add: halvings_small)
  next
    case False
    then have "1 \<le> m div 2"
      by simp
    with False "1.IH" have "2 ^ halvings (m div 2) \<le> m div 2"
      by simp
    then have "2 * 2 ^ halvings (m div 2) \<le> m"
      by linarith
    moreover from False have "halvings m = Suc (halvings (m div 2))"
      by (subst halvings.simps) simp
    ultimately show ?thesis
      by simp
  qed
qed

lemma roundMagnitude_small: "0 \<le> m \<Longrightarrow> m < 2 ^ 53 \<Longrightarrow> roundMagnitude m = Some m"
proof -
  assume m: "0 \<le> m" "m < 2 ^ 53"
  have "(2::int) ^ 53 \<le> 2 ^ 1024"
    by (rule power_increasing) simp_all
  with m have "\<not> 2 ^ 1024 \<le> m"
    by linarith
  with m show ?thesis
    by (simp add: roundMagnitude_def halvings_small del: halvings.simps)
qed

lemma roundMagnitude_limit: "roundMagnitude (2 ^ 53) = Some (2 ^ 53)"
  by code_simp

lemma roundMagnitude_exact: "0 \<le> m \<Longrightarrow> m \<le> 2 ^ 53 \<Longrightarrow> roundMagnitude m = Some m"
  using roundMagnitude_small [of m] roundMagnitude_limit by (cases "m = 2 ^ 53") simp_all

lemma roundMagnitude_pos:
  assumes "roundMagnitude m = Some v" and "1 \<le> m"
  shows "1 \<le> v"
proof -
  define e where "e = halvings m"
  have "2 ^ e \<le> m"
    unfolding e_def using assms(2) by (rule halvings_power)
  then have "0 < m div 2 ^ e"
    by (simp add: pos_imp_zdiv_pos_iff)
  then have q: "1 \<le> m div 2 ^ e"
    by simp
  have p: "(1::int) \<le> 2 ^ e"
    by simp
  have "1 \<le> (m div 2 ^ e) * 2 ^ e"
    using mult_mono [of 1 "m div 2 ^ e" 1 "2 ^ e"] q p by simp
  moreover have "1 \<le> (m div 2 ^ e + 1) * 2 ^ e"
    using mult_mono [of 1 "m div 2 ^ e + 1" 1 "2 ^ e"] q p by simp
  ultimately have "1 \<le> (m div 2 ^ e) * 2 ^ e" and "1 \<le> (m div 2 ^ e + 1) * 2 ^ e"
    by simp_all
  with assms(1) show ?thesis
    by (auto simp: roundMagnitude_def Let_def e_def simp del: halvings.simps split: if_splits)
qed

lemma toDouble_exact: "\<bar>n\<bar> \<le> 2 ^ 53 \<Longrightarrow> toDouble n = Finite n"
  by (simp add: toDouble_def roundMagnitude_exact)

text \<open>Rounding at work: a tie goes to the even neighbour, and \<open>10 ^ 309\<close> is beyond the
  largest double.\<close>

lemma toDouble_examples:
  "toDouble 9007199254740993 = Finite 9007199254740992 \<and>
   toDouble 9007199254740995 = Finite 9007199254740996 \<and>
   toDouble (10 ^ 309) = Infinity \<and> toDouble (- (10 ^ 309)) = NegInfinity"
  by code_simp

lemma toDouble_zero: "toDouble 0 = Finite 0"
  by (simp add: toDouble_exact)

lemma toDouble_positive: "Finite 0 < toDouble n \<longleftrightarrow> 0 < n"
proof (cases "n = 0")
  case True
  then show ?thesis
    by (simp add: toDouble_zero)
next
  case False
  then have m: "1 \<le> \<bar>n\<bar>"
    by simp
  show ?thesis
  proof (cases "roundMagnitude \<bar>n\<bar>")
    case None
    then show ?thesis
      using False by (auto simp: toDouble_def less_number_def)
  next
    case (Some v)
    then have "1 \<le> v"
      using m by (rule roundMagnitude_pos)
    with Some False show ?thesis
      by (auto simp: toDouble_def less_number_def)
  qed
qed

lemma positive_subtract: "positive (subtract b a) \<longleftrightarrow> a < b"
proof (cases a; cases b)
  fix x y
  assume "a = Finite x" and "b = Finite y"
  then have ab: "a = Finite x" "b = Finite y"
    by simp_all
  have "positive (subtract b a) \<longleftrightarrow> 0 < y - x"
    by (simp add: ab positive_def toDouble_positive)
  moreover have "a < b \<longleftrightarrow> x < y"
    by (auto simp: ab less_number_def)
  ultimately show ?thesis
    by simp
qed (simp_all add: positive_def less_number_def)

section \<open>The Ranker: sorting, truncation, projection\<close>

lemma positive_by_score_desc: "positive (by_score_desc x y) \<longleftrightarrow> \<not> score_desc x y"
  by (simp add: by_score_desc_def positive_subtract score_desc_def not_le)

lemma set_insert_sorted: "set (insert_sorted f x xs) = insert x (set xs)"
  by (induction xs) auto

lemma mset_insert_sorted: "mset (insert_sorted f x xs) = add_mset x (mset xs)"
  by (induction xs) auto

lemma mset_array_sort: "mset (array_sort f xs) = mset xs"
  by (induction xs) (simp_all add: mset_insert_sorted)

lemma length_array_sort: "length (array_sort f xs) = length xs"
  using mset_array_sort [of f xs] by (metis size_mset)

lemma set_array_sort: "set (array_sort f xs) = set xs"
  using mset_array_sort [of f xs] by (metis set_mset_mset)

lemma sorted_insert_sorted:
  "sorted_wrt score_desc xs \<Longrightarrow> sorted_wrt score_desc (insert_sorted by_score_desc x xs)"
proof (induction xs)
  case Nil
  then show ?case by simp
next
  case (Cons y ys)
  show ?case
  proof (cases "score_desc x y")
    case True
    then have "\<forall>z \<in> set ys. score_desc x z"
      using Cons.prems by (auto simp: score_desc_def intro: order_trans)
    with True Cons.prems show ?thesis
      by (simp add: positive_by_score_desc)
  next
    case False
    then have "score_desc y x"
      by (simp add: score_desc_def)
    with False Cons show ?thesis
      by (auto simp: positive_by_score_desc set_insert_sorted)
  qed
qed

lemma sorted_array_sort: "sorted_wrt score_desc (array_sort by_score_desc xs)"
  by (induction xs) (simp_all add: sorted_insert_sorted)

lemma insert_sorted_head:
  "\<forall>y \<in> set xs. score_desc x y \<Longrightarrow> insert_sorted by_score_desc x xs = x # xs"
  by (cases xs) (auto simp: positive_by_score_desc)

lemma array_sort_id: "sorted_wrt score_desc xs \<Longrightarrow> array_sort by_score_desc xs = xs"
  by (induction xs) (simp_all add: insert_sorted_head)

lemma array_sort_fixed_iff: "array_sort by_score_desc xs = xs \<longleftrightarrow> sorted_wrt score_desc xs"
  using array_sort_id sorted_array_sort [of xs] by metis

lemma slice0_position: "slice xs (Finite 0) e = take (nat (position (int (length xs)) e)) xs"
  by (simp add: slice_def Let_def position_def)

lemma slice0_take:
  "slice xs (Finite 0) (Finite e) = take (if e < 0 then nat (int (length xs) + e) else nat e) xs"
  by (auto simp: slice0_position position_def min_def max_def)

lemma sorted_wrt_take: "sorted_wrt P xs \<Longrightarrow> sorted_wrt P (take n xs)"
  by (metis append_take_drop_id sorted_wrt_append)

lemma sorted_scores_map:
  "sorted_wrt score_desc xs \<Longrightarrow> sorted_wrt (\<lambda>a b. b \<le> a) (map entry_score (map project xs))"
  unfolding score_desc_def [abs_def] by (simp add: sorted_wrt_map project_def)

lemma getHighestRecords_scores_sorted:
  "sorted_wrt (\<lambda>a b. b \<le> a) (map entry_score (snd (getHighestRecords records cnt)))"
  unfolding getHighestRecords_def Let_def snd_conv slice0_position
  by (intro sorted_scores_map sorted_wrt_take sorted_array_sort)

lemma length_getHighestRecords:
  "0 \<le> cnt \<Longrightarrow>
   length (snd (getHighestRecords records (Finite cnt))) = min (nat cnt) (length records)"
  by (simp add: getHighestRecords_def Let_def slice0_take length_array_sort)

lemma sorted_decomp:
  assumes "sorted_wrt score_desc xs" and "a \<in> set xs" and "b \<in> set xs" and "score a < score b"
  shows "\<exists>us vs ws. xs = us @ b # vs @ a # ws"
proof -
  from assms(3) obtain us rest where xs: "xs = us @ b # rest"
    by (auto simp: in_set_conv_decomp)
  have "a \<notin> set us"
  proof
    assume "a \<in> set us"
    with assms(1) xs have "score_desc a b"
      by (simp add: sorted_wrt_append)
    with assms(4) show False
      by (simp add: score_desc_def not_le [symmetric])
  qed
  moreover from assms(4) have "a \<noteq> b" by auto
  ultimately have "a \<in> set rest"
    using assms(2) xs by auto
  then obtain vs ws where "rest = vs @ a # ws"
    by (auto simp: in_set_conv_decomp)
  with xs show ?thesis by blast
qed

lemma output_positions:
  assumes "i < length (snd (getHighestRecords records cnt))"
    and "j < length (snd (getHighestRecords records cnt))"
    and "entry_score (snd (getHighestRecords records cnt) ! i) < entry_score (snd (getHighestRecords records cnt) ! j)"
  shows "j < i"
proof (rule ccontr)
  let ?out = "snd (getHighestRecords records cnt)"
  assume "\<not> j < i"
  with assms(3) have "i < j"
    by (cases "i = j") auto
  moreover have "sorted_wrt (\<lambda>a b. b \<le> a) (map entry_score ?out)"
    by (rule getHighestRecords_scores_sorted)
  ultimately have "map entry_score ?out ! j \<le> map entry_score ?out ! i"
    using assms(2) by (simp add: sorted_wrt_iff_nth_less)
  with assms show False
    by simp
qed

section \<open>The parser\<close>

lemma parse_lines_length: "parse_lines parse ls = Inr rs \<Longrightarrow> length rs = length ls"
  by (induction ls arbitrary: rs) (auto split: sum.splits)

lemma parseDataFile_Resolved:
  "parseDataFile readFile parse filePath = Resolved records \<longleftrightarrow>
     (\<exists>data. readFile filePath = Inr data \<and> parse_lines parse (file_lines data) = Inr records)"
  by (auto simp: parseDataFile_def split: sum.splits)

section \<open>parseInt with radix 10 is leading-prefix decimal parsing\<close>

lemma of_char_cases:
  "48 \<le> (of_char c :: nat) \<Longrightarrow> (of_char c :: nat) \<le> 57 \<Longrightarrow> c \<in> set (map char_of [48 ..< 58 :: nat])"
proof -
  assume a: "48 \<le> (of_char c :: nat)" "(of_char c :: nat) \<le> 57"
  have "c = char_of (of_char c :: nat)" by simp
  moreover from a have "(of_char c :: nat) \<in> set [48 ..< 58]" unfolding set_upt by simp
  ultimately show ?thesis by (metis image_eqI set_map)
qed

lemma digits_enum: "map char_of [48 ..< 58 :: nat] = ''0123456789''"
  by code_simp

lemma is_digit_iff: "is_digit c \<longleftrightarrow> 48 \<le> (of_char c :: nat) \<and> (of_char c :: nat) \<le> 57"
proof
  assume "is_digit c"
  then show "48 \<le> (of_char c :: nat) \<and> (of_char c :: nat) \<le> 57"
    by (auto simp: is_digit_def)
next
  assume "48 \<le> (of_char c :: nat) \<and> (of_char c :: nat) \<le> 57"
  then have "c \<in> set (map char_of [48 ..< 58 :: nat])"
    using of_char_cases by blast
  then show "is_digit c"
    unfolding digits_enum is_digit_def .
qed

lemma isRadixDigit_10: "isRadixDigit 10 c = is_digit c"
  by (auto simp: isRadixDigit_def digitValue_def is_digit_iff Let_def)

lemma digitValue_digit: "is_digit c \<Longrightarrow> digitValue c = Some (digit_of c)"
  by (simp add: digitValue_def is_digit_iff digit_of_def Let_def)

lemma foldl_digits:
  "\<forall>c \<in> set ds. is_digit c \<Longrightarrow>
   foldl (\<lambda>acc c. acc * 10 + int (the (digitValue c))) acc ds =
     acc * 10 ^ length ds + int (decimal_value ds)"
  by (induction ds arbitrary: acc) (simp_all add: digitValue_digit algebra_simps)

lemma digitsValue_decimal: "\<forall>c \<in> set ds. is_digit c \<Longrightarrow> digitsValue 10 ds = int (decimal_value ds)"
  by (simp add: digitsValue_def foldl_digits)

lemma takeWhile_digits_value:
  "digitsValue 10 (takeWhile is_digit s) = int (decimal_value (takeWhile is_digit s))"
  by (rule digitsValue_decimal) (auto dest: set_takeWhileD)

lemma parseInt_10: "parseInt token 10 = map_option toDouble (leading_integer token)"
proof -
  define S where "S = dropWhile isWhiteSpace token"
  have "parseInt token 10 =
     (let sign = (if S \<noteq> [] \<and> hd S = CHR ''-'' then -1 else 1 :: int);
          S' = (if S \<noteq> [] \<and> (hd S = CHR ''+'' \<or> hd S = CHR ''-'') then tl S else S);
          Z = takeWhile is_digit S'
      in if Z = [] then None else Some (toDouble (sign * int (decimal_value Z))))"
    by (simp add: parseInt_def trimStart_def Let_def S_def isRadixDigit_10 [abs_def]
        takeWhile_digits_value)
  also have "\<dots> = map_option toDouble (case S of
        [] \<Rightarrow> None
      | c # cs \<Rightarrow>
          if c = CHR ''-'' then map_option (\<lambda>n. - int n) (leading_digits cs)
          else if c = CHR ''+'' then map_option int (leading_digits cs)
          else map_option int (leading_digits (c # cs)))"
    by (cases S) (simp_all add: leading_digits_def Let_def)
  finally show ?thesis
    by (simp add: leading_integer_def S_def)
qed

section \<open>Strings: digits, positions, trimming\<close>

lemma digit_not_space: "is_digit c \<Longrightarrow> \<not> isWhiteSpace c"
  by (auto simp: is_digit_iff isWhiteSpace_def)

lemma digit_not_sign: "is_digit c \<Longrightarrow> c \<noteq> CHR ''+'' \<and> c \<noteq> CHR ''-'' \<and> c \<noteq> CHR ''x'' \<and> c \<noteq> CHR ''X''"
  by (auto simp: is_digit_def)

lemma takeWhile_prefix:
  "\<forall>c \<in> set ds. P c \<Longrightarrow> rest = [] \<or> \<not> P (hd rest) \<Longrightarrow> takeWhile P (ds @ rest) = ds"
  by (cases rest) (simp_all add: takeWhile_append2 takeWhile_eq_all_conv)

lemma leading_digits_prefix:
  "ds \<noteq> [] \<Longrightarrow> \<forall>c \<in> set ds. is_digit c \<Longrightarrow> rest = [] \<or> \<not> is_digit (hd rest) \<Longrightarrow>
   leading_digits (ds @ rest) = Some (decimal_value ds)"
proof -
  assume ne: "ds \<noteq> []" and dig: "\<forall>c \<in> set ds. is_digit c" and r: "rest = [] \<or> \<not> is_digit (hd rest)"
  have "takeWhile is_digit (ds @ rest) = ds"
    using dig r by (rule takeWhile_prefix)
  then show ?thesis
    using ne by (simp only: leading_digits_def Let_def) simp
qed

lemma leading_integer_prefix:
  assumes "dropWhile isWhiteSpace token = sg @ ds @ rest"
    and "sg = [] \<or> sg = ''+'' \<or> sg = ''-''"
    and "ds \<noteq> []" and "\<forall>c \<in> set ds. is_digit c" and "rest = [] \<or> \<not> is_digit (hd rest)"
  shows "leading_integer token = Some ((if sg = ''-'' then -1 else 1) * int (decimal_value ds))"
proof -
  from assms(3) obtain d ds' where ds: "ds = d # ds'"
    by (cases ds) auto
  with assms(4) have d: "d \<noteq> CHR ''+''" "d \<noteq> CHR ''-''"
    using digit_not_sign by auto
  have ld: "leading_digits (ds @ rest) = Some (decimal_value ds)"
    using assms(3-5) by (rule leading_digits_prefix)
  from assms(2) show ?thesis
  proof (elim disjE)
    assume "sg = []"
    with assms(1) ds have "dropWhile isWhiteSpace token = d # (ds' @ rest)" by simp
    then show ?thesis using d ld \<open>sg = []\<close> ds
      by (simp add: leading_integer_def)
  next
    assume "sg = ''+''"
    with assms(1) have "dropWhile isWhiteSpace token = CHR ''+'' # (ds @ rest)" by simp
    then show ?thesis using ld \<open>sg = ''+''\<close>
      by (simp add: leading_integer_def)
  next
    assume "sg = ''-''"
    with assms(1) have "dropWhile isWhiteSpace token = CHR ''-'' # (ds @ rest)" by simp
    then show ?thesis using ld \<open>sg = ''-''\<close>
      by (simp add: leading_integer_def)
  qed
qed

lemma dropWhile_no_space: "s = [] \<or> \<not> isWhiteSpace (hd s) \<Longrightarrow> dropWhile isWhiteSpace s = s"
  by (cases s) auto

lemma parseInt_0_digits:
  assumes "s \<noteq> []" and "\<forall>c \<in> set s. is_digit c"
  shows "parseInt s 0 = Some (toDouble (int (decimal_value s)))"
proof -
  from assms obtain d ds where s: "s = d # ds" and d: "is_digit d"
    by (cases s) auto
  have S: "trimStart s = s"
    using s d by (simp add: trimStart_def digit_not_space)
  have sign: "hd s \<noteq> CHR ''+''" "hd s \<noteq> CHR ''-''"
    using s digit_not_sign [OF d] by simp_all
  have nohex: "take 2 s \<noteq> ''0x''" "take 2 s \<noteq> ''0X''"
    using assms(2) s digit_not_sign by (cases ds; auto)+
  have Z: "takeWhile (isRadixDigit 10) s = s"
    using assms(2) by (simp add: isRadixDigit_10 [abs_def] takeWhile_eq_all_conv)
  have "parseInt s 0 =
      (if takeWhile (isRadixDigit 10) s = [] then None
       else Some (toDouble (digitsValue 10 (takeWhile (isRadixDigit 10) s))))"
    unfolding parseInt_def S Let_def using sign nohex by simp
  also have "\<dots> = Some (toDouble (int (decimal_value s)))"
    unfolding Z using assms by (simp add: digitsValue_decimal)
  finally show ?thesis .
qed

lemma indexOf_absent: "c \<notin> set s \<Longrightarrow> indexOf s c = -1"
  by (induction s) (auto simp: Let_def)

lemma indexOf_first: "c \<notin> set pre \<Longrightarrow> indexOf (pre @ c # post) c = int (length pre)"
  by (induction pre) (auto simp: Let_def)

lemma substring_0_neg: "e \<le> 0 \<Longrightarrow> substring s 0 (Some e) = []"
  by (simp add: substring_def Let_def)

lemma substring_0_all: "substring s 0 None = s"
  by (simp add: substring_def Let_def)

lemma substring_prefix: "0 \<le> e \<Longrightarrow> substring s 0 (Some e) = take (nat e) s"
  by (auto simp: substring_def Let_def min_def max_def)

lemma substring_suffix: "0 \<le> b \<Longrightarrow> substring s b None = drop (nat b) s"
  by (auto simp: substring_def Let_def min_def max_def)

lemma trimStart_clean: "s = [] \<or> \<not> isWhiteSpace (hd s) \<Longrightarrow> trimStart s = s"
  by (simp add: trimStart_def dropWhile_no_space)

lemma trimEnd_clean: "s = [] \<or> \<not> isWhiteSpace (last s) \<Longrightarrow> trimEnd s = s"
proof -
  assume a: "s = [] \<or> \<not> isWhiteSpace (last s)"
  have "dropWhile isWhiteSpace (rev s) = rev s"
    using a by (intro dropWhile_no_space) (auto simp: hd_rev)
  then show ?thesis by (simp add: trimEnd_def)
qed

lemma trimStart_head: "trimStart s = [] \<or> \<not> isWhiteSpace (hd (trimStart s))"
  unfolding trimStart_def by (metis hd_dropWhile)

lemma trimEnd_last: "trimEnd s = [] \<or> \<not> isWhiteSpace (last (trimEnd s))"
  unfolding trimEnd_def by (metis hd_dropWhile last_rev rev_is_Nil_conv)

lemma trimEnd_head: "t = [] \<or> \<not> isWhiteSpace (hd t) \<Longrightarrow> trimEnd t = [] \<or> \<not> isWhiteSpace (hd (trimEnd t))"
proof (induction t rule: rev_induct)
  case Nil
  then show ?case by (simp add: trimEnd_def)
next
  case (snoc x xs)
  show ?case
  proof (cases "isWhiteSpace x")
    case True
    then have eq: "trimEnd (xs @ [x]) = trimEnd xs"
      by (simp add: trimEnd_def)
    show ?thesis
    proof (cases xs)
      case Nil
      then show ?thesis using eq by (simp add: trimEnd_def)
    next
      case (Cons a list)
      with snoc.prems have "\<not> isWhiteSpace (hd xs)" by simp
      with snoc.IH eq show ?thesis by simp
    qed
  next
    case False
    then have "trimEnd (xs @ [x]) = xs @ [x]"
      by (simp add: trimEnd_def)
    with snoc.prems show ?thesis by simp
  qed
qed

lemma trim_clean: "trim s = [] \<or> (\<not> isWhiteSpace (hd (trim s)) \<and> \<not> isWhiteSpace (last (trim s)))"
  unfolding trim_def using trimEnd_head [OF trimStart_head [of s]] trimEnd_last [of "trimStart s"]
  by blast

lemma trim_idem: "trim (trim s) = trim s"
proof -
  have "trimStart (trim s) = trim s"
    using trim_clean [of s] by (intro trimStart_clean) blast
  moreover have "trimEnd (trim s) = trim s"
    using trim_clean [of s] by (intro trimEnd_clean) blast
  ultimately show ?thesis
    by (simp add: trim_def [of "trim s"])
qed

lemma file_lines_trimmed: "line \<in> set (file_lines data) \<Longrightarrow> trim line = line \<and> line \<noteq> []"
  by (auto simp: file_lines_def trim_idem)

text \<open>A line with a colon splits at the first one: the score token is the trimmed text
  before it and the record token the trimmed text after it, further colons included.\<close>

lemma tokens_around_first_colon:
  assumes "line = pre @ CHR '':'' # post" and "CHR '':'' \<notin> set pre"
  shows "scoreStr_of line = trim pre \<and> recordStr_of line = trim post"
proof -
  have i: "indexOf line CHR '':'' = int (length pre)"
    unfolding assms(1) using assms(2) by (rule indexOf_first)
  have "substring line 0 (Some (int (length pre))) = pre"
    by (simp add: substring_prefix assms(1))
  moreover have "substring line (int (length pre) + 1) None = post"
    by (simp add: substring_suffix assms(1) nat_add_distrib)
  ultimately show ?thesis
    by (simp add: scoreStr_of_def recordStr_of_def i Let_def)
qed

lemma scoreStr_no_colon: "CHR '':'' \<notin> set line \<Longrightarrow> scoreStr_of line = []"
  by (simp add: scoreStr_of_def indexOf_absent substring_0_neg Let_def trim_def trimStart_def trimEnd_def)

lemma recordStr_no_colon: "CHR '':'' \<notin> set line \<Longrightarrow> recordStr_of line = trim line"
  by (simp add: recordStr_of_def indexOf_absent substring_0_all Let_def)

lemma parseInt_empty: "parseInt [] 10 = None"
  by code_simp

section \<open>Validation and the exits of a run\<close>

lemma object_checks:
  "(typeof v \<noteq> ''object'' \<or> isArray v \<or> v = JNull) = (\<not> is_object v)"
  by (cases v) (simp_all add: typeof_def isArray_def is_object_def)

lemma validate_after_score:
  assumes "parseInt scoreStr 10 = Some n"
  shows "validateScoreAndRecord parse scoreStr recordStr =
     (case parse recordStr of
        None \<Rightarrow> Inl (Exit InvalidRecordJSON 2)
      | Some v \<Rightarrow>
          if \<not> is_object v then Inl (Exit InvalidRecordShape 2)
          else if ''id'' \<notin> fst ` set (properties v) then Inl (Exit InvalidRecordMissingId 2)
          else Inr \<lparr>score = n, record_obj = properties v\<rparr>)"
  unfolding validateScoreAndRecord_def assms object_checks has_property_def
  by (simp split: option.splits)

lemma validate_InvalidScore:
  "validateScoreAndRecord parse scoreStr recordStr = Inl (Exit InvalidScore 2) \<longleftrightarrow> parseInt scoreStr 10 = None"
  by (auto simp: validateScoreAndRecord_def split: option.splits)

lemma validate_score:
  "validateScoreAndRecord parse scoreStr recordStr = Inr r \<Longrightarrow> parseInt scoreStr 10 = Some (score r)"
  by (auto simp: validateScoreAndRecord_def split: option.splits if_splits)

lemma validate_exit:
  "validateScoreAndRecord parse scoreStr recordStr = Inl e \<Longrightarrow>
   e \<in> {Exit InvalidScore 2, Exit InvalidRecordJSON 2, Exit InvalidRecordShape 2, Exit InvalidRecordMissingId 2}"
  by (auto simp: validateScoreAndRecord_def split: option.splits if_splits)

lemma parse_lines_exit:
  "parse_lines parse ls = Inl e \<Longrightarrow>
   e \<in> {Exit InvalidScore 2, Exit InvalidRecordJSON 2, Exit InvalidRecordShape 2, Exit InvalidRecordMissingId 2}"
proof (induction ls)
  case Nil
  then show ?case by simp
next
  case (Cons l ls)
  show ?case
  proof (cases "parse_line parse l")
    case (Inl e')
    with Cons.prems have "e = e'" by simp
    with Inl show ?thesis
      using validate_exit unfolding parse_line_def by blast
  next
    case (Inr r)
    with Cons.prems have "parse_lines parse ls = Inl e"
      by (simp split: sum.splits)
    then show ?thesis by (rule Cons.IH)
  qed
qed

lemma parseDataFile_exit:
  "parseDataFile readFile parse filePath = Exited e \<Longrightarrow> e \<noteq> Exit InvalidCount 2"
  using parse_lines_exit [of parse _ e]
  by (auto simp: parseDataFile_def split: sum.splits)

lemma main_two_args:
  "main readFile parse [filePath, countStr] =
     (case parseInt countStr 0 of
        None \<Rightarrow> Failed (Exit InvalidCount 2)
      | Some cnt \<Rightarrow>
          if cnt \<le> Finite 0 then Failed (Exit InvalidCount 2)
          else
            (case parseDataFile readFile parse filePath of
               Resolved records \<Rightarrow> Printed (snd (getHighestRecords records cnt))
             | Exited e \<Rightarrow> Failed e
             | Rejected code \<Rightarrow>
                 if code = ''ENOENT'' then Failed (Exit FileNotFound 1)
                 else Failed (Exit OtherIOError 2)))"
  by (simp add: main_def Let_def)

lemma main_InvalidCount:
  "main readFile parse [filePath, countStr] = Failed (Exit InvalidCount 2) \<longleftrightarrow>
     (case parseInt countStr 0 of None \<Rightarrow> True | Some cnt \<Rightarrow> cnt \<le> Finite 0)"
  using parseDataFile_exit [of readFile parse filePath]
  by (auto simp: main_two_args split: option.splits parse_result.splits)

lemma toDouble_exact_nat:
  "d \<le> 2 ^ 53 \<Longrightarrow> toDouble (int d) = Finite (int d) \<and> toDouble (- int d) = Finite (- int d)"
proof -
  assume "d \<le> 2 ^ 53"
  then have "int d \<le> int (2 ^ 53)"
    by (simp only: of_nat_le_iff)
  then have "\<bar>int d\<bar> \<le> 2 ^ 53" and "\<bar>- int d\<bar> \<le> 2 ^ 53"
    by simp_all
  then show ?thesis
    by (simp only: toDouble_exact)
qed

lemma toDouble_not_positive: "toDouble n \<le> Finite 0 \<longleftrightarrow> n \<le> 0"
  using toDouble_positive [of n] by (simp add: not_less [symmetric])

section \<open>The properties\<close>

text \<open>
  C1. For every valid input (the file is read and every line parses and validates, so
  that \<open>parseDataFile\<close> resolves) and every positive count, the scores of the entries that
  \<open>getHighestRecords\<close> returns are non-increasing from the first entry to the last.
\<close>

theorem scores_non_increasing:
  assumes "parseDataFile readFile parse filePath = Resolved records" and "0 < cnt"
  shows "sorted_wrt (\<lambda>a b. b \<le> a) (map entry_score (snd (getHighestRecords records (Finite cnt))))"
  by (rule getHighestRecords_scores_sorted)

theorem scores_non_increasing_witness:
  "parseDataFile example_files example_parse ''data.txt'' = Resolved example1_records \<and> (0::int) < 2 \<and>
   map entry_score (snd (getHighestRecords example1_records (Finite 2))) = [Finite 20, Finite 10] \<and>
   sorted_wrt (\<lambda>a b. b \<le> a) (map entry_score (snd (getHighestRecords example1_records (Finite 2))))"
  using scores_non_increasing [OF example1_parsed, of 2]
  by (simp add: example1_parsed example1_ranked)

text \<open>
  C2. For every valid input and every positive count, the number of entries returned is
  the smaller of the count and the number of lines of the input (all of them valid); an
  input with fewer lines than the count yields all of them, and no error.
\<close>

theorem output_length:
  assumes "readFile filePath = Inr data"
    and "parseDataFile readFile parse filePath = Resolved records"
    and "0 < cnt"
  shows "length (snd (getHighestRecords records (Finite cnt))) = min (nat cnt) (length (file_lines data))"
proof -
  from assms(1,2) have "parse_lines parse (file_lines data) = Inr records"
    by (simp add: parseDataFile_Resolved)
  then have "length records = length (file_lines data)"
    by (rule parse_lines_length)
  with assms(3) show ?thesis
    by (simp add: length_getHighestRecords)
qed

theorem output_length_witness:
  "example_files ''one.txt'' = Inr example2_text \<and>
   parseDataFile example_files example_parse ''one.txt'' = Resolved example2_records \<and> (0::int) < 5 \<and>
   length (file_lines example2_text) = 1 \<and>
   length (snd (getHighestRecords example2_records (Finite 5))) = 1"
proof -
  have n: "length (file_lines example2_text) = 1"
    by code_simp
  have pos: "(0::int) < 5"
    by simp
  from output_length [OF example2_read example2_parsed pos] n
  show ?thesis
    by (simp add: example2_read example2_parsed)
qed

text \<open>
  C3. The record token is validated once the score token has an integer prefix (the score
  check comes first in \<open>validateScoreAndRecord\<close>). From there, for every record token:
  validation succeeds exactly when the token parses to an object (not an array, not
  \<open>null\<close>, not a scalar) that has a key \<open>id\<close>, whatever the value under that key;
  otherwise the run ends with \<open>InvalidRecordJSON\<close> when parsing fails,
  \<open>InvalidRecordShape\<close> when the value is not an object, and \<open>InvalidRecordMissingId\<close>
  when the object has no key \<open>id\<close>.
\<close>

theorem record_token_validation:
  assumes "parseInt scoreStr 10 = Some n"
  shows "validateScoreAndRecord parse scoreStr recordStr =
           (case parse recordStr of
              None \<Rightarrow> Inl (Exit InvalidRecordJSON 2)
            | Some v \<Rightarrow>
                if \<not> is_object v then Inl (Exit InvalidRecordShape 2)
                else if ''id'' \<notin> fst ` set (properties v) then Inl (Exit InvalidRecordMissingId 2)
                else Inr \<lparr>score = n, record_obj = properties v\<rparr>) \<and>
         ((\<exists>r. validateScoreAndRecord parse scoreStr recordStr = Inr r) \<longleftrightarrow>
            (\<exists>kvs. parse recordStr = Some (JObject kvs) \<and> ''id'' \<in> fst ` set kvs))"
proof -
  have eq: "validateScoreAndRecord parse scoreStr recordStr =
           (case parse recordStr of
              None \<Rightarrow> Inl (Exit InvalidRecordJSON 2)
            | Some v \<Rightarrow>
                if \<not> is_object v then Inl (Exit InvalidRecordShape 2)
                else if ''id'' \<notin> fst ` set (properties v) then Inl (Exit InvalidRecordMissingId 2)
                else Inr \<lparr>score = n, record_obj = properties v\<rparr>)"
    using assms by (rule validate_after_score)
  have "(\<exists>r. validateScoreAndRecord parse scoreStr recordStr = Inr r) \<longleftrightarrow>
            (\<exists>kvs. parse recordStr = Some (JObject kvs) \<and> ''id'' \<in> fst ` set kvs)"
  proof (cases "parse recordStr")
    case None
    then show ?thesis unfolding eq by simp
  next
    case (Some v)
    then show ?thesis unfolding eq
      by (cases v) (simp_all add: is_object_def properties_def)
  qed
  with eq show ?thesis by blast
qed

theorem record_token_validation_witness:
  \<open>parseInt ''5'' 10 = Some (Finite 5) \<and>
   validateScoreAndRecord example_parse ''5'' ''{"id": 1}'' = Inr \<lparr>score = Finite 5, record_obj = [(''id'', JNumber 1)]\<rparr> \<and>
   validateScoreAndRecord example_parse ''5'' ''["not","an","object"]'' = Inl (Exit InvalidRecordShape 2) \<and>
   validateScoreAndRecord example_parse ''5'' ''{"name": "x"}'' = Inl (Exit InvalidRecordMissingId 2) \<and>
   validateScoreAndRecord example_parse ''5'' ''{'' = Inl (Exit InvalidRecordJSON 2)\<close>
proof -
  have five: "parseInt ''5'' 10 = Some (Finite 5)"
    by code_simp
  have p1: \<open>example_parse ''{"id": 1}'' = Some (JObject [(''id'', JNumber 1)])\<close>
    by code_simp
  have p2: \<open>example_parse ''["not","an","object"]'' = Some (JArray [JString ''not'', JString ''an'', JString ''object''])\<close>
    by code_simp
  have p3: \<open>example_parse ''{"name": "x"}'' = Some (JObject [(''name'', JString ''x'')])\<close>
    by code_simp
  have p4: \<open>example_parse ''{'' = None\<close>
    by code_simp
  show ?thesis
    using record_token_validation [OF five, of example_parse \<open>''{"id": 1}''\<close>]
      record_token_validation [OF five, of example_parse \<open>''["not","an","object"]''\<close>]
      record_token_validation [OF five, of example_parse \<open>''{"name": "x"}''\<close>]
      record_token_validation [OF five, of example_parse \<open>''{''\<close>]
    by (simp add: five p1 p2 p3 p4 is_object_def properties_def)
qed

text \<open>
  C4, as stated: a score token that begins with an integer prefix is accepted with the
  value of that prefix. The token \<open>9007199254740993\<close> (that is \<open>2 ^ 53 + 1\<close>) refutes it: a
  JavaScript number is a double, which cannot hold this integer, and the score of the
  record is \<open>9007199254740992\<close>.
\<close>

theorem score_token_value_counterexample:
  \<open>leading_integer ''9007199254740993'' = Some 9007199254740993 \<and>
   parseInt ''9007199254740993'' 10 = Some (Finite 9007199254740992) \<and>
   validateScoreAndRecord example_parse ''9007199254740993'' ''{"id": 1}'' =
     Inr \<lparr>score = Finite 9007199254740992, record_obj = [(''id'', JNumber 1)]\<rparr>\<close>
proof -
  have dw: "dropWhile isWhiteSpace ''9007199254740993'' = [] @ ''9007199254740993'' @ []"
    by code_simp
  have ne: "''9007199254740993'' \<noteq> []"
    by simp
  have dig: "\<forall>c \<in> set ''9007199254740993''. is_digit c"
    by code_simp
  have "leading_integer ''9007199254740993'' =
      Some ((if [] = ''-'' then -1 else 1) * int (decimal_value ''9007199254740993''))"
    using leading_integer_prefix [OF dw _ ne dig] by blast
  moreover have "decimal_value ''9007199254740993'' = 9007199254740993"
    by (simp add: digit_of_def)
  ultimately have a: "leading_integer ''9007199254740993'' = Some 9007199254740993"
    by simp
  have b: "parseInt ''9007199254740993'' 10 = Some (Finite 9007199254740992)"
    by code_simp
  have c: \<open>validateScoreAndRecord example_parse ''9007199254740993'' ''{"id": 1}'' =
     Inr \<lparr>score = Finite 9007199254740992, record_obj = [(''id'', JNumber 1)]\<rparr>\<close>
    by code_simp
  from a b c show ?thesis
    by blast
qed

text \<open>
  C4, amended. For every score token, the score is obtained by base-10 leading-prefix
  integer parsing, as a double: \<open>parseInt\<close> with radix 10 is \<open>leading_integer\<close>, rounded
  to the nearest double; a token that begins, after leading white space, with an optional
  sign and decimal digits is accepted with the value of those digits rounded to the
  nearest double, whatever follows them, and that is the value itself when the digits
  denote at most \<open>2 ^ 53\<close> (\<open>42abc\<close> is 42); and the run ends with \<open>InvalidScore\<close> exactly
  when the token has no such prefix.
\<close>

theorem score_token_parsing:
  "parseInt scoreStr 10 = map_option toDouble (leading_integer scoreStr) \<and>
   (validateScoreAndRecord parse scoreStr recordStr = Inl (Exit InvalidScore 2) \<longleftrightarrow>
      leading_integer scoreStr = None) \<and>
   (\<forall>r. validateScoreAndRecord parse scoreStr recordStr = Inr r \<longrightarrow>
      map_option toDouble (leading_integer scoreStr) = Some (score r)) \<and>
   (trimStart scoreStr = sg @ ds @ rest \<and> (sg = [] \<or> sg = ''+'' \<or> sg = ''-'') \<and>
    ds \<noteq> [] \<and> (\<forall>c \<in> set ds. is_digit c) \<and> (rest = [] \<or> \<not> is_digit (hd rest)) \<longrightarrow>
      parseInt scoreStr 10 = Some (toDouble ((if sg = ''-'' then -1 else 1) * int (decimal_value ds))) \<and>
      (decimal_value ds \<le> 2 ^ 53 \<longrightarrow>
         parseInt scoreStr 10 = Some (Finite ((if sg = ''-'' then -1 else 1) * int (decimal_value ds)))))"
proof (intro conjI impI allI)
  show "parseInt scoreStr 10 = map_option toDouble (leading_integer scoreStr)"
    by (rule parseInt_10)
  show "validateScoreAndRecord parse scoreStr recordStr = Inl (Exit InvalidScore 2) \<longleftrightarrow>
      leading_integer scoreStr = None"
    by (simp add: validate_InvalidScore parseInt_10)
  show "map_option toDouble (leading_integer scoreStr) = Some (score r)"
    if "validateScoreAndRecord parse scoreStr recordStr = Inr r" for r
    using validate_score [OF that] by (simp add: parseInt_10)
  assume h: "trimStart scoreStr = sg @ ds @ rest \<and> (sg = [] \<or> sg = ''+'' \<or> sg = ''-'') \<and>
    ds \<noteq> [] \<and> (\<forall>c \<in> set ds. is_digit c) \<and> (rest = [] \<or> \<not> is_digit (hd rest))"
  then have "leading_integer scoreStr = Some ((if sg = ''-'' then -1 else 1) * int (decimal_value ds))"
    using leading_integer_prefix [of scoreStr sg ds rest] by (simp add: trimStart_def)
  then show p: "parseInt scoreStr 10 =
      Some (toDouble ((if sg = ''-'' then -1 else 1) * int (decimal_value ds)))"
    by (simp add: parseInt_10)
  assume "decimal_value ds \<le> 2 ^ 53"
  then have "toDouble (int (decimal_value ds)) = Finite (int (decimal_value ds)) \<and>
      toDouble (- int (decimal_value ds)) = Finite (- int (decimal_value ds))"
    by (rule toDouble_exact_nat)
  then show "parseInt scoreStr 10 = Some (Finite ((if sg = ''-'' then -1 else 1) * int (decimal_value ds)))"
    unfolding p by simp
qed

theorem score_token_parsing_witness:
  \<open>parseInt ''42abc'' 10 = Some (Finite 42) \<and>
   validateScoreAndRecord example_parse ''42abc'' ''{"id": 1}'' = Inr \<lparr>score = Finite 42, record_obj = [(''id'', JNumber 1)]\<rparr> \<and>
   validateScoreAndRecord example_parse ''abc'' ''{"id": 1}'' = Inl (Exit InvalidScore 2)\<close>
proof -
  note accepted = score_token_parsing [of \<open>''42abc''\<close> example_parse \<open>''{"id": 1}''\<close> "[]" \<open>''42''\<close> \<open>''abc''\<close>]
  note refused = score_token_parsing [of \<open>''abc''\<close> example_parse \<open>''{"id": 1}''\<close> "[]" \<open>''42''\<close> \<open>''abc''\<close>]
  have prefix: "trimStart ''42abc'' = [] @ ''42'' @ ''abc'' \<and> ([] = [] \<or> [] = ''+'' \<or> [] = ''-'') \<and>
      ''42'' \<noteq> [] \<and> (\<forall>c \<in> set ''42''. is_digit c) \<and> (''abc'' = [] \<or> \<not> is_digit (hd ''abc''))"
    by code_simp
  have small: "decimal_value ''42'' \<le> 2 ^ 53"
    by (simp add: digit_of_def)
  have val: "(if [] = ''-'' then -1 else 1) * int (decimal_value ''42'') = 42"
    by code_simp
  from accepted prefix small
  have "parseInt ''42abc'' 10 = Some (Finite ((if [] = ''-'' then -1 else 1) * int (decimal_value ''42'')))"
    by blast
  then have a: "parseInt ''42abc'' 10 = Some (Finite 42)"
    by (simp only: val)
  have b: \<open>validateScoreAndRecord example_parse ''42abc'' ''{"id": 1}'' = Inr \<lparr>score = Finite 42, record_obj = [(''id'', JNumber 1)]\<rparr>\<close>
    by code_simp
  have "leading_integer ''abc'' = None"
    by code_simp
  with refused
  have c: \<open>validateScoreAndRecord example_parse ''abc'' ''{"id": 1}'' = Inl (Exit InvalidScore 2)\<close>
    by blast
  from a b c show ?thesis
    by blast
qed

text \<open>
  C5, as stated: on a non-empty trimmed line with no colon, both the score token and the
  record token are the whole line. The line \<open>42\<close> refutes it: \<open>indexOf\<close> returns \<open>-1\<close>,
  \<open>substring(0, -1)\<close> clamps \<open>-1\<close> to \<open>0\<close> and is the empty string, so the score token is
  empty, not \<open>42\<close>.
\<close>

theorem colonless_line_counterexample:
  "''42'' \<noteq> [] \<and> trim ''42'' = ''42'' \<and> CHR '':'' \<notin> set ''42'' \<and>
   scoreStr_of ''42'' = [] \<and> scoreStr_of ''42'' \<noteq> ''42'' \<and> recordStr_of ''42'' = ''42''"
  by code_simp

text \<open>
  C5, amended. For every line of the input (non-empty and trimmed) that contains no
  colon, the score token is the empty string and the record token is the whole line; the
  run therefore ends with \<open>InvalidScore\<close>.
\<close>

theorem colonless_line:
  assumes "line \<in> set (file_lines data)" and "CHR '':'' \<notin> set line"
  shows "scoreStr_of line = [] \<and> recordStr_of line = line \<and>
         parse_line parse line = Inl (Exit InvalidScore 2)"
proof -
  have s: "scoreStr_of line = []"
    using assms(2) by (rule scoreStr_no_colon)
  have "recordStr_of line = trim line"
    using assms(2) by (rule recordStr_no_colon)
  with assms(1) have r: "recordStr_of line = line"
    by (simp add: file_lines_trimmed)
  have "parse_line parse line = Inl (Exit InvalidScore 2)"
    unfolding parse_line_def s by (simp add: validate_InvalidScore parseInt_empty)
  with s r show ?thesis by blast
qed

theorem colonless_line_witness:
  "''42'' \<in> set (file_lines ''42'') \<and> CHR '':'' \<notin> set ''42'' \<and>
   scoreStr_of ''42'' = [] \<and> recordStr_of ''42'' = ''42'' \<and>
   parse_line example_parse ''42'' = Inl (Exit InvalidScore 2)"
proof -
  have l: "''42'' \<in> set (file_lines ''42'')"
    by code_simp
  have c: "CHR '':'' \<notin> set ''42''"
    by code_simp
  from colonless_line [OF l c, of example_parse] l c show ?thesis
    by blast
qed

text \<open>
  C6, as stated: \<open>getHighestRecords\<close> leaves its input sequence unchanged. The records of
  Example 1 refute it: \<open>sort\<close> works in place, and after the call the caller's array
  holds the records in the order 20, 10, 5 instead of 10, 5, 20.
\<close>

theorem ranker_input_counterexample:
  "fst (getHighestRecords example1_records (Finite 2)) =
     [\<lparr>score = Finite 20, record_obj = [(''id'', JString ''c'')]\<rparr>,
      \<lparr>score = Finite 10, record_obj = [(''id'', JString ''a'')]\<rparr>,
      \<lparr>score = Finite 5, record_obj = [(''id'', JString ''b'')]\<rparr>] \<and>
   fst (getHighestRecords example1_records (Finite 2)) \<noteq> example1_records"
  by code_simp

text \<open>
  C6, amended. For every sequence of parsed records and every count, after
  \<open>getHighestRecords\<close> the input sequence holds the same records, each as often as
  before, in non-increasing order of score; it is unchanged exactly when it was in that
  order already.
\<close>

theorem ranker_sorts_input_in_place:
  "mset (fst (getHighestRecords records cnt)) = mset records \<and>
   sorted_wrt score_desc (fst (getHighestRecords records cnt)) \<and>
   (fst (getHighestRecords records cnt) = records \<longleftrightarrow> sorted_wrt score_desc records)"
  by (simp add: getHighestRecords_def Let_def mset_array_sort sorted_array_sort array_sort_fixed_iff)

theorem ranker_sorts_input_in_place_witness:
  "mset (fst (getHighestRecords example2_records (Finite 5))) = mset example2_records \<and>
   sorted_wrt score_desc example2_records \<and>
   fst (getHighestRecords example2_records (Finite 5)) = example2_records"
proof -
  have "sorted_wrt score_desc example2_records"
    by code_simp
  with ranker_sorts_input_in_place [of example2_records "Finite 5"] show ?thesis
    by blast
qed

text \<open>
  C7, as stated: for every count at or below zero, \<open>getHighestRecords\<close> returns the empty
  sequence. Count \<open>-1\<close> on the records of Example 1 refutes it: \<open>slice(0, -1)\<close> counts
  the end from the back and keeps all entries but the last.
\<close>

theorem non_positive_count_counterexample:
  "(-1 :: int) \<le> 0 \<and>
   snd (getHighestRecords example1_records (Finite (-1))) =
     [\<lparr>entry_score = Finite 20, entry_record = Some (JString ''c'')\<rparr>,
      \<lparr>entry_score = Finite 10, entry_record = Some (JString ''a'')\<rparr>] \<and>
   snd (getHighestRecords example1_records (Finite (-1))) \<noteq> []"
  by code_simp

text \<open>
  C7, amended. For every sequence of parsed records and every count at or below zero,
  \<open>getHighestRecords\<close> returns the empty sequence when the count is zero, and otherwise
  the first \<open>length + count\<close> entries of the sorted sequence (none when that is not
  positive). It is empty exactly when the count is zero or \<open>length + count \<le> 0\<close>.
\<close>

theorem non_positive_count:
  assumes "cnt \<le> 0"
  shows "snd (getHighestRecords records (Finite cnt)) =
           (if cnt = 0 then []
            else map project (take (nat (int (length records) + cnt)) (array_sort by_score_desc records))) \<and>
         (snd (getHighestRecords records (Finite cnt)) = [] \<longleftrightarrow> cnt = 0 \<or> int (length records) + cnt \<le> 0)"
proof -
  have out: "snd (getHighestRecords records (Finite cnt)) =
      (if cnt = 0 then []
       else map project (take (nat (int (length records) + cnt)) (array_sort by_score_desc records)))"
    using assms by (auto simp: getHighestRecords_def Let_def slice0_take length_array_sort)
  have "array_sort by_score_desc records = [] \<longleftrightarrow> records = []"
    using length_array_sort [of by_score_desc records] by (metis length_0_conv)
  then have "snd (getHighestRecords records (Finite cnt)) = [] \<longleftrightarrow> cnt = 0 \<or> int (length records) + cnt \<le> 0"
    unfolding out using assms by auto
  with out show ?thesis by blast
qed

theorem non_positive_count_witness:
  "(0 :: int) \<le> 0 \<and> snd (getHighestRecords example1_records (Finite 0)) = [] \<and>
   (-3 :: int) \<le> 0 \<and> snd (getHighestRecords example1_records (Finite (-3))) = []"
proof -
  have z: "(0 :: int) \<le> 0" and m: "(-3 :: int) \<le> 0"
    by simp_all
  have n: "int (length example1_records) + (-3) \<le> 0"
    by code_simp
  from non_positive_count [OF z, of example1_records] non_positive_count [OF m, of example1_records] n z m
  show ?thesis
    by blast
qed

text \<open>
  C8, as stated: every count argument that does not denote a positive integer is rejected
  with \<open>InvalidCount\<close> and exit code 2. The argument \<open>5abc\<close> refutes it: \<open>parseInt\<close>
  reads the prefix \<open>5\<close> and ignores the rest, and the run goes on to print its result.
\<close>

theorem count_argument_counterexample:
  "\<not> denotes_positive_integer ''5abc'' \<and>
   main example_files example_parse [''one.txt'', ''5abc''] =
     Printed [\<lparr>entry_score = Finite 3, entry_record = Some (JNumber 1)\<rparr>]"
  by code_simp

text \<open>
  C8, amended. The run is rejected with \<open>InvalidCount\<close> and exit code 2 exactly when
  \<open>parseInt\<close> of the count argument (leading white space skipped, an optional sign, a
  \<open>0x\<close> prefix for hexadecimal, the longest prefix of digits, the rest ignored) is \<open>NaN\<close>
  or at most zero, whatever the file system holds; for every count argument that denotes
  a positive integer, \<open>parseInt\<close> is that integer, as a double, and the run proceeds to
  read and rank the file.
\<close>

theorem count_argument:
  "(main readFile parse [filePath, countStr] = Failed (Exit InvalidCount 2) \<longleftrightarrow>
      (case parseInt countStr 0 of None \<Rightarrow> True | Some cnt \<Rightarrow> cnt \<le> Finite 0)) \<and>
   (denotes_positive_integer countStr \<longrightarrow>
      parseInt countStr 0 = Some (toDouble (int (decimal_value countStr))) \<and>
      main readFile parse [filePath, countStr] =
        (case parseDataFile readFile parse filePath of
           Resolved records \<Rightarrow>
             Printed (snd (getHighestRecords records (toDouble (int (decimal_value countStr)))))
         | Exited e \<Rightarrow> Failed e
         | Rejected code \<Rightarrow>
             if code = ''ENOENT'' then Failed (Exit FileNotFound 1)
             else Failed (Exit OtherIOError 2)))"
proof (intro conjI impI)
  show "main readFile parse [filePath, countStr] = Failed (Exit InvalidCount 2) \<longleftrightarrow>
      (case parseInt countStr 0 of None \<Rightarrow> True | Some cnt \<Rightarrow> cnt \<le> Finite 0)"
    by (rule main_InvalidCount)
next
  assume "denotes_positive_integer countStr"
  then have ne: "countStr \<noteq> []" and dig: "\<forall>c \<in> set countStr. is_digit c"
    and pos: "0 < decimal_value countStr"
    by (simp_all add: denotes_positive_integer_def)
  show p: "parseInt countStr 0 = Some (toDouble (int (decimal_value countStr)))"
    using ne dig by (rule parseInt_0_digits)
  show "main readFile parse [filePath, countStr] =
        (case parseDataFile readFile parse filePath of
           Resolved records \<Rightarrow>
             Printed (snd (getHighestRecords records (toDouble (int (decimal_value countStr)))))
         | Exited e \<Rightarrow> Failed e
         | Rejected code \<Rightarrow>
             if code = ''ENOENT'' then Failed (Exit FileNotFound 1)
             else Failed (Exit OtherIOError 2))"
    unfolding main_two_args p using pos by (simp add: toDouble_not_positive)
qed

theorem count_argument_witness:
  "denotes_positive_integer ''2'' \<and> parseInt ''2'' 0 = Some (Finite 2) \<and>
   main example_files example_parse [''data.txt'', ''2''] = Printed
     [\<lparr>entry_score = Finite 20, entry_record = Some (JString ''c'')\<rparr>,
      \<lparr>entry_score = Finite 10, entry_record = Some (JString ''a'')\<rparr>] \<and>
   parseInt ''0'' 0 = Some (Finite 0) \<and>
   main example_files example_parse [''data.txt'', ''0''] = Failed (Exit InvalidCount 2) \<and>
   parseInt ''two'' 0 = None \<and>
   main example_files example_parse [''data.txt'', ''two''] = Failed (Exit InvalidCount 2)"
proof -
  have d: "denotes_positive_integer ''2''"
    by code_simp
  have v: "toDouble (int (decimal_value ''2'')) = Finite 2"
    by code_simp
  have z: "parseInt ''0'' 0 = Some (Finite 0)" and t: "parseInt ''two'' 0 = None"
    by code_simp+
  from count_argument [of example_files example_parse "''data.txt''" "''2''"] d
  have a: "parseInt ''2'' 0 = Some (Finite 2)"
    by (simp only: v) 
  from count_argument [of example_files example_parse "''data.txt''" "''0''"] z
  have b: "main example_files example_parse [''data.txt'', ''0''] = Failed (Exit InvalidCount 2)"
    by simp
  from count_argument [of example_files example_parse "''data.txt''" "''two''"] t
  have c: "main example_files example_parse [''data.txt'', ''two''] = Failed (Exit InvalidCount 2)"
    by simp
  from a b c d z t example1_main show ?thesis
    by blast
qed

text \<open>
  C9. The pipeline is deterministic: two runs on the same input text with the same count
  end the same way, both printing the same sequence or both failing with the same error.
  The two runs may differ in everything else they are given: the file system around the
  input, the path it is read from, and the spelling of the count.
\<close>

theorem same_text_same_count_same_result:
  assumes "readFile1 path1 = Inr text" and "readFile2 path2 = Inr text"
    and "parseInt count1 0 = parseInt count2 0"
  shows "main readFile1 parse [path1, count1] = main readFile2 parse [path2, count2]"
proof -
  have same_parse: "parseDataFile readFile1 parse path1 = parseDataFile readFile2 parse path2"
    using assms(1,2) by (simp add: parseDataFile_def)
  show ?thesis
    unfolding main_two_args assms(3) same_parse by (rule refl)
qed

theorem same_text_same_count_same_result_witness:
  "example_files ''data.txt'' = Inr example1_text \<and> mirror_files ''copy.txt'' = Inr example1_text \<and>
   parseInt ''2'' 0 = parseInt ''+2 '' 0 \<and>
   main example_files example_parse [''data.txt'', ''2''] =
     main mirror_files example_parse [''copy.txt'', ''+2 ''] \<and>
   main mirror_files example_parse [''copy.txt'', ''+2 ''] = Printed
     [\<lparr>entry_score = Finite 20, entry_record = Some (JString ''c'')\<rparr>,
      \<lparr>entry_score = Finite 10, entry_record = Some (JString ''a'')\<rparr>]"
proof -
  have f1: "example_files ''data.txt'' = Inr example1_text"
    by code_simp
  have f2: "mirror_files ''copy.txt'' = Inr example1_text"
    by code_simp
  have c: "parseInt ''2'' 0 = parseInt ''+2 '' 0"
    by code_simp
  from same_text_same_count_same_result
      [of example_files "''data.txt''" example1_text mirror_files "''copy.txt''" "''2''" "''+2 ''"
        example_parse, OF f1 f2 c]
    f1 f2 c example1_main
  show ?thesis
    by simp
qed

text \<open>
  C10, as stated: a score token that is a minus sign followed by digits parses to the
  corresponding negative integer, and the entry is ranked below every entry with a
  greater score. The lines \<open>-9007199254740993: {"id": "a"}\<close> and
  \<open>-9007199254740992: {"id": "b"}\<close> refute it: both scores are the double
  \<open>-9007199254740992\<close>, so the first is not the integer written, and the first line,
  though its integer is the smaller, is ranked first.
\<close>

theorem negative_scores_counterexample:
  \<open>scoreStr_of ''-9007199254740993: {"id": "a"}'' = CHR ''-'' # ''9007199254740993'' \<and>
   decimal_value ''9007199254740993'' = 9007199254740993 \<and>
   parse_lines example_parse [''-9007199254740993: {"id": "a"}'', ''-9007199254740992: {"id": "b"}''] =
     Inr [\<lparr>score = Finite (- 9007199254740992), record_obj = [(''id'', JString ''a'')]\<rparr>,
          \<lparr>score = Finite (- 9007199254740992), record_obj = [(''id'', JString ''b'')]\<rparr>] \<and>
   snd (getHighestRecords
          [\<lparr>score = Finite (- 9007199254740992), record_obj = [(''id'', JString ''a'')]\<rparr>,
           \<lparr>score = Finite (- 9007199254740992), record_obj = [(''id'', JString ''b'')]\<rparr>] (Finite 1)) =
     [\<lparr>entry_score = Finite (- 9007199254740992), entry_record = Some (JString ''a'')\<rparr>]\<close>
proof -
  have a: \<open>scoreStr_of ''-9007199254740993: {"id": "a"}'' = CHR ''-'' # ''9007199254740993''\<close>
    by code_simp
  have b: "decimal_value ''9007199254740993'' = 9007199254740993"
    by (simp add: digit_of_def)
  have c: \<open>parse_lines example_parse [''-9007199254740993: {"id": "a"}'', ''-9007199254740992: {"id": "b"}''] =
     Inr [\<lparr>score = Finite (- 9007199254740992), record_obj = [(''id'', JString ''a'')]\<rparr>,
          \<lparr>score = Finite (- 9007199254740992), record_obj = [(''id'', JString ''b'')]\<rparr>]\<close>
    by code_simp
  have d: "snd (getHighestRecords
          [\<lparr>score = Finite (- 9007199254740992), record_obj = [(''id'', JString ''a'')]\<rparr>,
           \<lparr>score = Finite (- 9007199254740992), record_obj = [(''id'', JString ''b'')]\<rparr>] (Finite 1)) =
     [\<lparr>entry_score = Finite (- 9007199254740992), entry_record = Some (JString ''a'')\<rparr>]"
    by code_simp
  from a b c d show ?thesis
    by blast
qed

text \<open>
  C10, amended. Negative scores are accepted: for every line whose score token is a minus
  sign followed by decimal digits, the score parses to the negative of the digits' value
  rounded to the nearest double, which is that negative integer itself when the digits
  denote at most \<open>2 ^ 53\<close>, and is never above zero; the line yields a record with that
  score when its record token is valid. In the ranking, such a record stands after every
  record whose parsed score is greater, and in the output no entry precedes an entry with
  a greater score.
\<close>

theorem negative_scores:
  assumes "scoreStr_of line = CHR ''-'' # ds" and "ds \<noteq> []" and "\<forall>c \<in> set ds. is_digit c"
  shows "parseInt (scoreStr_of line) 10 = Some (toDouble (- int (decimal_value ds))) \<and>
     (decimal_value ds \<le> 2 ^ 53 \<longrightarrow>
        parseInt (scoreStr_of line) 10 = Some (Finite (- int (decimal_value ds)))) \<and>
     toDouble (- int (decimal_value ds)) \<le> Finite 0 \<and>
     (parse (recordStr_of line) = Some (JObject kvs) \<and> ''id'' \<in> fst ` set kvs \<longrightarrow>
        parse_line parse line =
          Inr \<lparr>score = toDouble (- int (decimal_value ds)), record_obj = kvs\<rparr>) \<and>
     (a \<in> set records \<and> b \<in> set records \<and> score a = toDouble (- int (decimal_value ds)) \<and>
      score a < score b \<longrightarrow>
        (\<exists>us vs ws. fst (getHighestRecords records cnt) = us @ b # vs @ a # ws)) \<and>
     (\<forall>i j. i < length (snd (getHighestRecords records cnt)) \<and>
            j < length (snd (getHighestRecords records cnt)) \<and>
            entry_score (snd (getHighestRecords records cnt) ! i) <
              entry_score (snd (getHighestRecords records cnt) ! j) \<longrightarrow> j < i)"
proof (intro conjI impI allI)
  have dw: "dropWhile isWhiteSpace (CHR ''-'' # ds) = ''-'' @ ds @ []"
    by (simp add: isWhiteSpace_def)
  have "leading_integer (CHR ''-'' # ds) = Some ((if ''-'' = ''-'' then -1 else 1) * int (decimal_value ds))"
    using leading_integer_prefix [OF dw _ assms(2,3)] by blast
  then show p: "parseInt (scoreStr_of line) 10 = Some (toDouble (- int (decimal_value ds)))"
    by (simp add: parseInt_10 assms(1))
  show "toDouble (- int (decimal_value ds)) \<le> Finite 0"
    by (simp add: toDouble_not_positive)
  {
    assume "decimal_value ds \<le> 2 ^ 53"
    then have "toDouble (int (decimal_value ds)) = Finite (int (decimal_value ds)) \<and>
        toDouble (- int (decimal_value ds)) = Finite (- int (decimal_value ds))"
      by (rule toDouble_exact_nat)
    then show "parseInt (scoreStr_of line) 10 = Some (Finite (- int (decimal_value ds)))"
      unfolding p by simp
  }
  {
    assume "parse (recordStr_of line) = Some (JObject kvs) \<and> ''id'' \<in> fst ` set kvs"
    then show "parse_line parse line =
        Inr \<lparr>score = toDouble (- int (decimal_value ds)), record_obj = kvs\<rparr>"
      unfolding parse_line_def validate_after_score [OF p]
      by (simp add: is_object_def properties_def)
  }
  {
    assume h: "a \<in> set records \<and> b \<in> set records \<and>
      score a = toDouble (- int (decimal_value ds)) \<and> score a < score b"
    have sorted: "sorted_wrt score_desc (fst (getHighestRecords records cnt))"
      by (simp add: getHighestRecords_def Let_def sorted_array_sort)
    have "set (fst (getHighestRecords records cnt)) = set records"
      by (simp add: getHighestRecords_def Let_def set_array_sort)
    with h have a: "a \<in> set (fst (getHighestRecords records cnt))"
      and b: "b \<in> set (fst (getHighestRecords records cnt))" and ab: "score a < score b"
      by blast+
    show "\<exists>us vs ws. fst (getHighestRecords records cnt) = us @ b # vs @ a # ws"
      using sorted a b ab by (rule sorted_decomp)
  }
  {
    fix i j
    assume "i < length (snd (getHighestRecords records cnt)) \<and>
            j < length (snd (getHighestRecords records cnt)) \<and>
            entry_score (snd (getHighestRecords records cnt) ! i) <
              entry_score (snd (getHighestRecords records cnt) ! j)"
    then show "j < i"
      using output_positions by blast
  }
qed

theorem negative_scores_witness:
  \<open>scoreStr_of ''-5: {"id": 1}'' = CHR ''-'' # ''5'' \<and> ''5'' \<noteq> [] \<and> list_all is_digit ''5'' \<and>
   parseInt (scoreStr_of ''-5: {"id": 1}'') 10 = Some (Finite (- 5)) \<and>
   parse_line example_parse ''-5: {"id": 1}'' = Inr negative_record \<and>
   fst (getHighestRecords (negative_record # example2_records) (Finite 1)) =
     example2_records @ [negative_record] \<and>
   snd (getHighestRecords (negative_record # example2_records) (Finite 2)) =
     [\<lparr>entry_score = Finite 3, entry_record = Some (JNumber 1)\<rparr>,
      \<lparr>entry_score = Finite (- 5), entry_record = Some (JNumber 1)\<rparr>] \<and>
   (\<exists>us vs ws. fst (getHighestRecords (negative_record # example2_records) (Finite 1)) =
      us @ hd example2_records # vs @ negative_record # ws)\<close>
proof -
  have tok: \<open>scoreStr_of ''-5: {"id": 1}'' = CHR ''-'' # ''5''\<close>
    by code_simp
  have ne: "''5'' \<noteq> []"
    by simp
  have dig: "\<forall>c \<in> set ''5''. is_digit c"
    by code_simp
  have small: "decimal_value ''5'' \<le> 2 ^ 53"
    by (simp add: digit_of_def)
  have val: "- int (decimal_value ''5'') = - 5"
    by code_simp
  have dbl: "toDouble (- int (decimal_value ''5'')) = Finite (- 5)"
    by code_simp
  have rec: \<open>example_parse (recordStr_of ''-5: {"id": 1}'') = Some (JObject [(''id'', JNumber 1)]) \<and>
      ''id'' \<in> fst ` set [(''id'', JNumber 1 :: json)]\<close>
    by code_simp
  have srt: "fst (getHighestRecords (negative_record # example2_records) (Finite 1)) =
      example2_records @ [negative_record]"
    by code_simp
  have out: "snd (getHighestRecords (negative_record # example2_records) (Finite 2)) =
     [\<lparr>entry_score = Finite 3, entry_record = Some (JNumber 1)\<rparr>,
      \<lparr>entry_score = Finite (- 5), entry_record = Some (JNumber 1)\<rparr>]"
    by code_simp
  note inst = negative_scores [OF tok ne dig, of example_parse "[(''id'', JNumber 1)]"
      negative_record "negative_record # example2_records" "hd example2_records" "Finite 1"]
  from inst small
  have \<open>parseInt (scoreStr_of ''-5: {"id": 1}'') 10 = Some (Finite (- int (decimal_value ''5'')))\<close>
    by blast
  then have a: \<open>parseInt (scoreStr_of ''-5: {"id": 1}'') 10 = Some (Finite (- 5))\<close>
    by (simp only: val)
  from inst rec
  have \<open>parse_line example_parse ''-5: {"id": 1}'' =
      Inr \<lparr>score = toDouble (- int (decimal_value ''5'')), record_obj = [(''id'', JNumber 1)]\<rparr>\<close>
    by blast
  then have b: \<open>parse_line example_parse ''-5: {"id": 1}'' = Inr negative_record\<close>
    by (simp only: dbl negative_record_def)
  have ord: "negative_record \<in> set (negative_record # example2_records) \<and>
      hd example2_records \<in> set (negative_record # example2_records) \<and>
      score negative_record = toDouble (- int (decimal_value ''5'')) \<and>
      score negative_record < score (hd example2_records)"
    by code_simp
  from inst ord
  have c: "\<exists>us vs ws. fst (getHighestRecords (negative_record # example2_records) (Finite 1)) =
      us @ hd example2_records # vs @ negative_record # ws"
    by blast
  have digs: "list_all is_digit ''5''"
    by code_simp
  from tok ne digs a b c srt out show ?thesis
    by blast
qed

end
